theory Spec2Isabelle
  imports Main "HOL-Library.Sublist"
begin

section \<open>JavaScript values read by the restart warning and the blurrable grade\<close>

text \<open>
  The fields that the code reads hold a string, \<open>null\<close> (the default of every entry of
  \<open>model.messages\<close>) or \<open>undefined\<close> (a field that is not there). Strict equality
  \<open>===\<close> on these values is equality of the datatype.
\<close>

datatype jsval = JUndefined | JNull | JStr string

text \<open>\<open>fluid.isValue(v)\<close>: \<open>v !== undefined && v !== null\<close>. The empty string is a value.\<close>

definition isValue :: "jsval \<Rightarrow> bool" where
  "isValue v = (v \<noteq> JUndefined \<and> v \<noteq> JNull)"

text \<open>JavaScript truthiness, as tested by \<open>if (messages.restartText)\<close>.\<close>

fun truthy :: "jsval \<Rightarrow> bool" where
  "truthy JUndefined = False"
| "truthy JNull = False"
| "truthy (JStr s) = (s \<noteq> [])"

text \<open>The string that \<open>Array.prototype.join\<close> takes for an element: empty for
  \<open>null\<close> and \<open>undefined\<close>.\<close>

fun toJoinString :: "jsval \<Rightarrow> string" where
  "toJoinString (JStr s) = s"
| "toJoinString _ = []"

fun join :: "jsval list \<Rightarrow> string \<Rightarrow> string" where
  "join [] sep = []"
| "join [x] sep = toJoinString x"
| "join (x # y # ys) sep = toJoinString x @ sep @ join (y # ys) sep"

text \<open>\<open>arr[0]\<close>: \<open>undefined\<close> on the empty array.\<close>

fun index0 :: "jsval list \<Rightarrow> jsval" where
  "index0 [] = JUndefined"
| "index0 (x # xs) = x"

datatype error = TypeError

section \<open>The data model\<close>

record schema =
  title :: jsval

text \<open>A pending change; \<open>schema\<close> is \<open>None\<close> when the object has no \<open>schema\<close> field.\<close>

record pendingChange =
  path :: string
  liveness :: string
  solutionName :: jsval
  schema :: "schema option"

text \<open>A setting of a settings group: of its fields the code reads \<open>path\<close> and the
  optional array \<open>settings\<close> of subsettings.\<close>

datatype setting = Setting (setting_path: string) (setting_settings: "setting list option")

record messages =
  osName :: jsval
  osRestartText :: jsval
  restartText :: jsval
  undo :: jsval
  applyNow :: jsval
  restartNow :: jsval

section \<open>The helpers of the Infusion library that the code calls\<close>

text \<open>\<open>fluid.find_if(source, func, deffolt)\<close>: the first element on which \<open>func\<close> is
  truthy; \<open>None\<close> stands for the default (\<open>undefined\<close>, or \<open>false\<close> where the caller
  passes it), which is falsy, while an element (an object) is truthy.\<close>

fun find_if :: "'a list \<Rightarrow> ('a \<Rightarrow> bool) \<Rightarrow> 'a option" where
  "find_if [] func = None"
| "find_if (x # xs) func = (if func x then Some x else find_if xs func)"

text \<open>\<open>fluid.accumulate(list, fn, arg)\<close>: a left fold; an exception thrown by \<open>fn\<close>
  ends it.\<close>

fun accumulate :: "'a list \<Rightarrow> ('a \<Rightarrow> 'b \<Rightarrow> error + 'b) \<Rightarrow> 'b \<Rightarrow> error + 'b" where
  "accumulate [] fn arg = Inr arg"
| "accumulate (x # xs) fn arg =
     (case fn x arg of Inl e \<Rightarrow> Inl e | Inr arg' \<Rightarrow> accumulate xs fn arg')"

text \<open>\<open>String.prototype.indexOf\<close>: the index of the first occurrence of
  \<open>searchString\<close>; \<open>None\<close> stands for \<open>-1\<close>.\<close>

fun indexOf :: "string \<Rightarrow> string \<Rightarrow> nat option" where
  "indexOf [] searchString = (if searchString = [] then Some 0 else None)"
| "indexOf (c # cs) searchString =
     (if take (length searchString) (c # cs) = searchString then Some 0
      else map_option Suc (indexOf cs searchString))"

text \<open>The \<open>while\<close> loop of \<open>fluid.stringTemplate\<close> for one key: as long as the
  placeholder occurs in the template, its first occurrence is cut out and the
  replacement value put in, and the search starts again at the beginning of the new
  template. \<open>None\<close> is a loop that does not end.\<close>

partial_function (option) replaceWhile :: "string \<Rightarrow> string \<Rightarrow> string \<Rightarrow> string option" where
  "replaceWhile templatePlaceholder replacementValue template =
     (case indexOf template templatePlaceholder of
        None \<Rightarrow> Some template
      | Some indexOfPlaceHolder \<Rightarrow>
          replaceWhile templatePlaceholder replacementValue
            (take indexOfPlaceHolder template @ replacementValue
             @ drop (indexOfPlaceHolder + length templatePlaceholder) template))"

text \<open>\<open>fluid.stringTemplate(template, {solutions: solutions})\<close>: the only key is
  \<open>solutions\<close>, and its placeholder is \<open>"%" + key\<close>.\<close>

definition stringTemplate :: "string \<Rightarrow> string \<Rightarrow> string option" where
  "stringTemplate template solutions = replaceWhile (''%'' @ ''solutions'') solutions template"

section \<open>gpii.psp.baseRestartWarning\<close>

definition isOSRestartNeeded :: "pendingChange list \<Rightarrow> pendingChange option" where
  "isOSRestartNeeded pendingChanges =
     find_if pendingChanges (\<lambda>pendingChange. liveness pendingChange = ''OSRestart'')"

text \<open>The conditional expression that picks the name of one pending change. Reading
  \<open>pendingChange.schema.title\<close> throws a TypeError when \<open>schema\<close> is undefined.\<close>

definition pickSolutionName :: "pendingChange \<Rightarrow> error + jsval" where
  "pickSolutionName pendingChange =
     (if isValue (solutionName pendingChange) then Inr (solutionName pendingChange)
      else (case schema pendingChange of
              None \<Rightarrow> Inl TypeError
            | Some s \<Rightarrow> Inr (title s)))"

text \<open>The callback of \<open>fluid.accumulate\<close> in \<open>getSolutionsNames\<close>.\<close>

definition addSolutionName :: "pendingChange \<Rightarrow> jsval list \<Rightarrow> error + jsval list" where
  "addSolutionName pendingChange solutionNames =
     (case pickSolutionName pendingChange of
        Inl e \<Rightarrow> Inl e
      | Inr name \<Rightarrow>
          Inr (if isValue name \<and> name \<notin> set solutionNames
               then solutionNames @ [name] else solutionNames))"

definition getSolutionsNames :: "messages \<Rightarrow> pendingChange list \<Rightarrow> error + jsval list" where
  "getSolutionsNames msgs pendingChanges =
     (if isOSRestartNeeded pendingChanges \<noteq> None then Inr [osName msgs]
      else accumulate pendingChanges addSolutionName [])"

text \<open>\<open>generateRestartText\<close>. A function that reaches its end without \<open>return\<close>
  yields \<open>undefined\<close>; the result is \<open>None\<close> when the call of \<open>fluid.stringTemplate\<close>
  does not return.\<close>

definition generateRestartText :: "messages \<Rightarrow> jsval list \<Rightarrow> jsval option" where
  "generateRestartText msgs solutionNames =
     (if index0 solutionNames = osName msgs then Some (osRestartText msgs)
      else if truthy (restartText msgs)
      then (case restartText msgs of
              JStr template \<Rightarrow>
                map_option JStr (stringTemplate template (join solutionNames '', ''))
            | _ \<Rightarrow> Some JUndefined)
      else Some JUndefined)"

definition generateRestartBtnLabel :: "messages \<Rightarrow> jsval list \<Rightarrow> jsval" where
  "generateRestartBtnLabel msgs solutionNames =
     (if index0 solutionNames = osName msgs then restartNow msgs else applyNow msgs)"

section \<open>gpii.psp.restartWarning\<close>

text \<open>\<open>hasUpdatedSetting\<close> is \<open>fluid.find_if\<close> over \<open>settings\<close> with a callback that
  calls \<open>hasUpdatedSetting\<close> on the subsettings; \<open>appliesTo\<close> is the truthiness of what
  that callback returns.\<close>

fun hasUpdatedSetting :: "pendingChange \<Rightarrow> setting list \<Rightarrow> setting option"
  and appliesTo :: "pendingChange \<Rightarrow> setting \<Rightarrow> bool" where
  "hasUpdatedSetting pendingChange [] = None"
| "hasUpdatedSetting pendingChange (s # ss) =
     (if appliesTo pendingChange s then Some s else hasUpdatedSetting pendingChange ss)"
| "appliesTo pendingChange (Setting p None) = (p = path pendingChange)"
| "appliesTo pendingChange (Setting p (Some subsettings)) =
     (if p = path pendingChange then True
      else hasUpdatedSetting pendingChange subsettings \<noteq> None)"

definition getPendingChanges :: "pendingChange list \<Rightarrow> setting list \<Rightarrow> pendingChange list" where
  "getPendingChanges pendingChanges settings =
     filter (\<lambda>pendingChange. hasUpdatedSetting pendingChange settings \<noteq> None) pendingChanges"

text \<open>\<open>toggle\<close>: the flag handed to \<open>container.toggle\<close>, which shows the warning when
  it is true and hides it otherwise.\<close>

definition toggle :: "jsval list \<Rightarrow> bool" where
  "toggle solutionNames = (length solutionNames > 0)"

section \<open>gpii.app.blurrable\<close>

text \<open>A browser window; \<open>gradeNames\<close> is \<open>None\<close> until \<open>initBlurrable\<close> attaches it,
  and \<open>blurListeners\<close> counts the listeners registered for its \<open>blur\<close> event.\<close>

record window =
  gradeNames :: "string list option"
  blurListeners :: nat

text \<open>The component: its options and the number of times \<open>onBlur\<close> has fired.\<close>

record blurrable =
  optGradeNames :: "string list"
  linkedWindowsGrades :: "string list"
  onBlurFired :: nat

text \<open>\<open>initBlurrable\<close>: calling \<open>targetWindow.on\<close> on a missing window throws before
  the test of \<open>targetWindow\<close> is reached.\<close>

definition initBlurrable :: "blurrable \<Rightarrow> window option \<Rightarrow> error + window" where
  "initBlurrable that targetWindow =
     (case targetWindow of
        None \<Rightarrow> Inl TypeError
      | Some w \<Rightarrow>
          Inr (w\<lparr>blurListeners := Suc (blurListeners w),
                 gradeNames := Some (optGradeNames that)\<rparr>))"

text \<open>The value of \<open>allowBlur\<close>; \<open>focusedWindow\<close> is what
  \<open>BrowserWindow.getFocusedWindow()\<close> returned (\<open>None\<close> for \<open>null\<close>).\<close>

definition allowBlur :: "window option \<Rightarrow> string list \<Rightarrow> bool" where
  "allowBlur focusedWindow linkedGrades =
     (\<not> list_ex (\<lambda>linkedWindowGrade.
          (case focusedWindow of
             None \<Rightarrow> False
           | Some w \<Rightarrow> (case gradeNames w of
                          None \<Rightarrow> False
                        | Some names \<Rightarrow> linkedWindowGrade \<in> set names))) linkedGrades)"

text \<open>\<open>that.events.onBlur.fire()\<close>.\<close>

definition fireOnBlur :: "blurrable \<Rightarrow> blurrable" where
  "fireOnBlur that = that\<lparr>onBlurFired := Suc (onBlurFired that)\<rparr>"

definition onFocusLost :: "window option \<Rightarrow> blurrable \<Rightarrow> string list \<Rightarrow> blurrable" where
  "onFocusLost focusedWindow that linkedGrades =
     (if allowBlur focusedWindow linkedGrades then fireOnBlur that else that)"

section \<open>The notions of the specification\<close>

text \<open>The display name of a pending change: its \<open>solutionName\<close> if that is a value,
  else the \<open>title\<close> of its schema (\<open>undefined\<close> when there is nothing to read).\<close>

definition displayName :: "pendingChange \<Rightarrow> jsval" where
  "displayName c =
     (if isValue (solutionName c) then solutionName c
      else (case schema c of None \<Rightarrow> JUndefined | Some s \<Rightarrow> title s))"

text \<open>Deduplication in first-seen order: of equal elements the first one stays.
  (\<open>remdups\<close> keeps the last one, hence the two reversals.)\<close>

definition firstSeen :: "'a list \<Rightarrow> 'a list" where
  "firstSeen xs = rev (remdups (rev xs))"

text \<open>The paths of all nodes of a settings tree, at any depth, listed depth-first.\<close>

fun groupPaths :: "setting list \<Rightarrow> string list"
  and nodePaths :: "setting \<Rightarrow> string list" where
  "groupPaths [] = []"
| "groupPaths (s # ss) = nodePaths s @ groupPaths ss"
| "nodePaths (Setting p None) = [p]"
| "nodePaths (Setting p (Some subsettings)) = p # groupPaths subsettings"

text \<open>\<open>isSubGroup S' S\<close>: the settings list \<open>S'\<close> is a sub-list of \<open>S\<close>, or a sub-list
  of the subsettings of some node of \<open>S\<close>, at any depth.\<close>

fun isSubGroup :: "setting list \<Rightarrow> setting list \<Rightarrow> bool"
  and isSubGroupOfNode :: "setting list \<Rightarrow> setting \<Rightarrow> bool" where
  "isSubGroup S' [] = (S' = [])"
| "isSubGroup S' (s # ss) = (subseq S' (s # ss) \<or> isSubGroupOfNode S' s \<or> isSubGroup S' ss)"
| "isSubGroupOfNode S' (Setting p None) = False"
| "isSubGroupOfNode S' (Setting p (Some subsettings)) = isSubGroup S' subsettings"

text \<open>The tag set of a window: empty while no grade names are attached.\<close>

definition tags :: "window \<Rightarrow> string set" where
  "tags w = (case gradeNames w of None \<Rightarrow> {} | Some names \<Rightarrow> set names)"

section \<open>Example inputs\<close>

definition exampleMessages :: messages where
  "exampleMessages =
     \<lparr>osName = JStr ''Windows'',
      osRestartText = JStr ''Windows needs to restart'',
      restartText = JStr ''To apply, restart %solutions'',
      undo = JStr ''Undo'',
      applyNow = JStr ''Apply now'',
      restartNow = JStr ''Restart now''\<rparr>"

definition magnifierA :: pendingChange where
  "magnifierA = \<lparr>path = ''a'', liveness = ''ApplicationRestart'',
                  solutionName = JStr ''Magnifier'', schema = Some \<lparr>title = JStr ''Magnification''\<rparr>\<rparr>"

definition magnifierB :: pendingChange where
  "magnifierB = \<lparr>path = ''b'', liveness = ''ApplicationRestart'',
                  solutionName = JStr ''Magnifier'', schema = Some \<lparr>title = JStr ''Magnifier position''\<rparr>\<rparr>"

definition zoomTool :: pendingChange where
  "zoomTool = \<lparr>path = ''c'', liveness = ''ApplicationRestart'',
                solutionName = JUndefined, schema = Some \<lparr>title = JStr ''Zoom Tool''\<rparr>\<rparr>"

definition language :: pendingChange where
  "language = \<lparr>path = ''d'', liveness = ''OSRestart'',
                solutionName = JUndefined, schema = Some \<lparr>title = JStr ''Language''\<rparr>\<rparr>"

definition untitled :: pendingChange where
  "untitled = \<lparr>path = ''e'', liveness = ''ApplicationRestart'',
                solutionName = JNull, schema = Some \<lparr>title = JUndefined\<rparr>\<rparr>"

definition exampleSettings :: "setting list" where
  "exampleSettings =
     [Setting ''a'' (Some [Setting ''b'' None, Setting ''x'' (Some [Setting ''c'' None])]),
      Setting ''y'' (Some []),
      Setting ''e'' None]"

definition qssWindow :: window where
  "qssWindow = \<lparr>gradeNames = Some [''qss'', ''widget''], blurListeners = 1\<rparr>"

definition otherWindow :: window where
  "otherWindow = \<lparr>gradeNames = Some [''about''], blurListeners = 1\<rparr>"

definition plainWindow :: window where
  "plainWindow = \<lparr>gradeNames = None, blurListeners = 0\<rparr>"

definition exampleBlurrable :: blurrable where
  "exampleBlurrable =
     \<lparr>optGradeNames = [''qss''], linkedWindowsGrades = [''qss''], onBlurFired = 0\<rparr>"

section \<open>Auxiliary facts\<close>

lemma find_if_None: "find_if xs f = None \<longleftrightarrow> (\<forall>x\<in>set xs. \<not> f x)"
  by (induction xs) auto

lemma isOSRestartNeeded_None:
  "isOSRestartNeeded pcs = None \<longleftrightarrow> (\<forall>c\<in>set pcs. liveness c \<noteq> ''OSRestart'')"
  unfolding isOSRestartNeeded_def find_if_None ..

lemma hasUpdated_paths:
  "(hasUpdatedSetting pc ss \<noteq> None) = (path pc \<in> set (groupPaths ss))"
  "appliesTo pc s = (path pc \<in> set (nodePaths s))"
  by (induction pc ss and pc s rule: hasUpdatedSetting_appliesTo.induct) auto

lemma getPendingChanges_paths:
  "getPendingChanges pcs settings = filter (\<lambda>pc. path pc \<in> set (groupPaths settings)) pcs"
  unfolding getPendingChanges_def hasUpdated_paths(1) ..

lemma subseq_paths: "subseq S' S \<Longrightarrow> set (groupPaths S') \<subseteq> set (groupPaths S)"
  by (induction rule: list_emb.induct) auto

lemma subGroup_paths:
  "isSubGroup S' S \<Longrightarrow> set (groupPaths S') \<subseteq> set (groupPaths S)"
  "isSubGroupOfNode S' s \<Longrightarrow> set (groupPaths S') \<subseteq> set (nodePaths s)"
proof (induction S' S and S' s rule: isSubGroup_isSubGroupOfNode.induct)
  case (2 S' s ss)
  from "2.prems" consider "subseq S' (s # ss)" | "isSubGroupOfNode S' s" | "isSubGroup S' ss"
    by auto
  then show ?case
  proof cases
    case 1 then show ?thesis by (rule subseq_paths)
  next
    case 2 with "2.IH"(1) show ?thesis by auto
  next
    case 3 with "2.IH"(2) show ?thesis by auto
  qed
qed auto

lemma accumulate_snoc:
  "accumulate (xs @ [x]) f acc = (case accumulate xs f acc of Inl e \<Rightarrow> Inl e | Inr a \<Rightarrow> f x a)"
  by (induction xs arbitrary: acc) (auto split: sum.splits)

lemma firstSeen_Nil: "firstSeen [] = []"
  by (simp add: firstSeen_def)

lemma firstSeen_snoc:
  "firstSeen (xs @ [x]) = (if x \<in> set xs then firstSeen xs else firstSeen xs @ [x])"
  by (simp add: firstSeen_def)

lemma set_firstSeen: "set (firstSeen xs) = set xs"
  by (simp add: firstSeen_def)

lemma distinct_firstSeen: "distinct (firstSeen xs)"
  by (simp add: firstSeen_def)

lemma pickSolutionName_cases:
  "pickSolutionName c =
     (if \<not> isValue (solutionName c) \<and> schema c = None then Inl TypeError
      else Inr (displayName c))"
  by (auto simp: pickSolutionName_def displayName_def split: option.splits)

lemma addSolutionName_cases:
  "addSolutionName c names =
     (if \<not> isValue (solutionName c) \<and> schema c = None then Inl TypeError
      else Inr (if isValue (displayName c) \<and> displayName c \<notin> set names
                then names @ [displayName c] else names))"
  by (simp add: addSolutionName_def pickSolutionName_cases)

lemma accumulate_names:
  "accumulate pcs addSolutionName [] =
     (if \<exists>c\<in>set pcs. \<not> isValue (solutionName c) \<and> schema c = None then Inl TypeError
      else Inr (firstSeen (filter isValue (map displayName pcs))))"
proof (induction pcs rule: rev_induct)
  case Nil
  show ?case by (simp add: firstSeen_def)
next
  case (snoc c pcs)
  show ?case
  proof (cases "\<exists>c\<in>set pcs. \<not> isValue (solutionName c) \<and> schema c = None")
    case True
    then show ?thesis using snoc.IH by (auto simp: accumulate_snoc)
  next
    case False
    then have acc: "accumulate pcs addSolutionName [] =
        Inr (firstSeen (filter isValue (map displayName pcs)))"
      using snoc.IH by simp
    let ?seen = "firstSeen (filter isValue (map displayName pcs))"
    have step: "accumulate (pcs @ [c]) addSolutionName [] = addSolutionName c ?seen"
      by (simp add: accumulate_snoc acc)
    show ?thesis
    proof (cases "\<not> isValue (solutionName c) \<and> schema c = None")
      case True
      then have "addSolutionName c ?seen = Inl TypeError"
        by (subst addSolutionName_cases) simp
      with True show ?thesis unfolding step by simp
    next
      case nothrow: False
      with False have none:
        "\<not> (\<exists>c\<in>set (pcs @ [c]). \<not> isValue (solutionName c) \<and> schema c = None)"
        by auto
      have "addSolutionName c ?seen =
          Inr (firstSeen (filter isValue (map displayName (pcs @ [c]))))"
        using nothrow by (subst addSolutionName_cases) (auto simp: firstSeen_snoc set_firstSeen)
      then show ?thesis unfolding step using none by simp
    qed
  qed
qed

lemma accumulate_names_total:
  assumes "\<forall>c\<in>set pcs. isValue (solutionName c) \<or> schema c \<noteq> None"
  shows "accumulate pcs addSolutionName [] = Inr (firstSeen (filter isValue (map displayName pcs)))"
proof -
  have "\<not> (\<exists>c\<in>set pcs. \<not> isValue (solutionName c) \<and> schema c = None)"
    using assms by blast
  then show ?thesis
    by (simp only: accumulate_names if_False)
qed

lemma getSolutionsNames_accumulated:
  assumes "\<forall>c\<in>set pcs. liveness c \<noteq> ''OSRestart''"
    and "\<forall>c\<in>set pcs. isValue (solutionName c) \<or> schema c \<noteq> None"
  shows "getSolutionsNames msgs pcs = Inr (firstSeen (filter isValue (map displayName pcs)))"
proof -
  have "isOSRestartNeeded pcs = None"
    using assms(1) by (simp only: isOSRestartNeeded_None)
  then show ?thesis
    by (simp add: getSolutionsNames_def accumulate_names_total [OF assms(2)])
qed

lemma getSolutionsNames_throws_iff:
  "getSolutionsNames msgs pcs = Inl TypeError \<longleftrightarrow>
     isOSRestartNeeded pcs = None
     \<and> (\<exists>c\<in>set pcs. \<not> isValue (solutionName c) \<and> schema c = None)"
  by (simp add: getSolutionsNames_def accumulate_names)

lemma generateRestartBtnLabel_by_liveness:
  assumes "getSolutionsNames msgs pcs = Inr names"
  shows "(\<exists>c\<in>set pcs. liveness c = ''OSRestart'') \<Longrightarrow>
           generateRestartBtnLabel msgs names = restartNow msgs"
    and "\<forall>c\<in>set pcs. liveness c \<noteq> ''OSRestart'' \<Longrightarrow> index0 names \<noteq> osName msgs \<Longrightarrow>
           generateRestartBtnLabel msgs names = applyNow msgs"
proof -
  assume "\<exists>c\<in>set pcs. liveness c = ''OSRestart''"
  then have "isOSRestartNeeded pcs \<noteq> None"
    by (simp only: isOSRestartNeeded_None) blast
  then have "names = [osName msgs]"
    using assms by (simp add: getSolutionsNames_def)
  then show "generateRestartBtnLabel msgs names = restartNow msgs"
    by (simp add: generateRestartBtnLabel_def)
next
  assume "index0 names \<noteq> osName msgs"
  then show "generateRestartBtnLabel msgs names = applyNow msgs"
    by (simp add: generateRestartBtnLabel_def)
qed

lemma indexOf_Some:
  "indexOf t p = Some i \<Longrightarrow> i + length p \<le> length t \<and> take (length p) (drop i t) = p"
proof (induction t arbitrary: i)
  case Nil
  then show ?case by (simp split: if_splits)
next
  case (Cons c cs)
  show ?case
  proof (cases "take (length p) (c # cs) = p")
    case True
    with Cons.prems have "i = 0" by simp
    moreover have "length (take (length p) (c # cs)) \<le> length (c # cs)"
      by simp
    then have "length p \<le> length (c # cs)"
      unfolding True .
    ultimately show ?thesis using True by simp
  next
    case False
    with Cons.prems obtain j where j: "indexOf cs p = Some j" "i = Suc j" by auto
    from Cons.IH [OF j(1)] j(2) show ?thesis by simp
  qed
qed

lemma indexOf_occurrence: "indexOf (pre @ p @ post) p \<noteq> None"
proof (induction pre)
  case Nil
  show ?case
  proof (cases "p @ post")
    case Nil
    then show ?thesis by simp
  next
    case (Cons c cs)
    have "take (length p) (p @ post) = p" by simp
    then have "take (length p) (c # cs) = p" unfolding Cons .
    then show ?thesis unfolding append_Nil Cons by simp
  qed
next
  case (Cons a pre)
  then show ?case by auto
qed

lemma indexOf_split:
  assumes "indexOf t p = Some i"
  shows "t = take i t @ p @ drop (i + length p) t"
proof -
  from indexOf_Some [OF assms] have "take (length p) (drop i t) = p" by simp
  then have "drop i t = p @ drop (length p) (drop i t)"
    by (metis append_take_drop_id)
  then have "take i t @ drop i t = take i t @ p @ drop (i + length p) t"
    by (simp add: add.commute)
  then show ?thesis by simp
qed

lemma indexOf_inside:
  assumes "indexOf r p \<noteq> None"
  shows "indexOf (xs @ r @ ys) p \<noteq> None"
proof -
  from assms obtain i where "indexOf r p = Some i" by auto
  from indexOf_split [OF this] obtain a b where "r = a @ p @ b" by blast
  then have "xs @ r @ ys = (xs @ a) @ p @ (b @ ys)" by simp
  then show ?thesis by (simp only: indexOf_occurrence not_False_eq_True)
qed

text \<open>A replacement value shorter than the placeholder makes the template shorter at
  each turn, so the loop ends.\<close>

lemma replaceWhile_shorter_returns:
  assumes "length r < length p"
  shows "\<exists>res. replaceWhile p r t = Some res"
proof (induction "length t" arbitrary: t rule: less_induct)
  case less
  show ?case
  proof (cases "indexOf t p")
    case None
    then show ?thesis by (subst replaceWhile.simps) simp
  next
    case (Some i)
    let ?t' = "take i t @ r @ drop (i + length p) t"
    from indexOf_Some [OF Some] have "i + length p \<le> length t" by simp
    with assms have "length ?t' < length t" by simp
    from less [OF this] obtain res where "replaceWhile p r ?t' = Some res" by blast
    with Some show ?thesis by (subst replaceWhile.simps) simp
  qed
qed

text \<open>What the loop returns has no placeholder left.\<close>

lemma replaceWhile_result:
  assumes "replaceWhile p r t = Some res"
  shows "indexOf res p = None"
  by (rule replaceWhile.raw_induct [where P = "\<lambda>p r t res. indexOf res p = None", OF _ assms])
    (auto split: option.splits)

text \<open>A replacement value that contains the placeholder puts it back at each turn, so
  the loop does not end once it has started.\<close>

lemma replaceWhile_never_returns:
  assumes "indexOf r p \<noteq> None" "indexOf t p \<noteq> None"
  shows "replaceWhile p r t = None"
proof (rule ccontr)
  assume "replaceWhile p r t \<noteq> None"
  then obtain res where res: "replaceWhile p r t = Some res" by auto
  have "\<not> (indexOf r p \<noteq> None \<and> indexOf t p \<noteq> None)"
  proof (rule replaceWhile.raw_induct
      [where P = "\<lambda>p r t res. \<not> (indexOf r p \<noteq> None \<and> indexOf t p \<noteq> None)", OF _ res])
    fix f p r t res
    assume IH: "\<And>p r t res. f p r t = Some res \<Longrightarrow>
        \<not> (indexOf r p \<noteq> None \<and> indexOf t p \<noteq> None)"
      and step: "(case indexOf t p of None \<Rightarrow> Some t
        | Some i \<Rightarrow> f p r (take i t @ r @ drop (i + length p) t)) = Some res"
    show "\<not> (indexOf r p \<noteq> None \<and> indexOf t p \<noteq> None)"
    proof
      assume a: "indexOf r p \<noteq> None \<and> indexOf t p \<noteq> None"
      then obtain i where i: "indexOf t p = Some i" by auto
      with step have "f p r (take i t @ r @ drop (i + length p) t) = Some res" by simp
      from IH [OF this] a indexOf_inside [of r p "take i t" "drop (i + length p) t"]
      show False by blast
    qed
  qed
  with assms show False by blast
qed

lemma replaceWhile_once:
  assumes "indexOf (pre @ p @ post) p = Some (length pre)"
    and "indexOf (pre @ r @ post) p = None"
  shows "replaceWhile p r (pre @ p @ post) = Some (pre @ r @ post)"
proof -
  have "replaceWhile p r (pre @ p @ post) = replaceWhile p r (pre @ r @ post)"
    by (subst replaceWhile.simps) (simp add: assms(1))
  also have "\<dots> = Some (pre @ r @ post)"
    by (subst replaceWhile.simps) (simp add: assms(2))
  finally show ?thesis .
qed

lemma stringTemplate_empty_returns:
  "\<exists>res. stringTemplate template [] = Some res \<and> indexOf res ''%solutions'' = None"
proof -
  obtain res where res: "replaceWhile ''%solutions'' [] template = Some res"
    using replaceWhile_shorter_returns [of "[]" "''%solutions''" template] by auto
  from replaceWhile_result [OF res] res show ?thesis
    by (simp add: stringTemplate_def)
qed

lemma generateRestartText_osRestartText:
  "index0 names = osName msgs \<Longrightarrow> generateRestartText msgs names = Some (osRestartText msgs)"
  by (simp add: generateRestartText_def)

lemma generateRestartText_no_template:
  "index0 names \<noteq> osName msgs \<Longrightarrow> \<not> truthy (restartText msgs) \<Longrightarrow>
     generateRestartText msgs names = Some JUndefined"
  by (simp add: generateRestartText_def)

text \<open>A template with the placeholder, first at the end of \<open>pre\<close>, and none once the
  joined names are put in: the result is the template with the joined names in its
  place.\<close>

lemma generateRestartText_substituted:
  assumes "index0 names \<noteq> osName msgs"
    and "restartText msgs = JStr (pre @ ''%solutions'' @ post)"
    and "indexOf (pre @ ''%solutions'' @ post) ''%solutions'' = Some (length pre)"
    and "indexOf (pre @ join names '', '' @ post) ''%solutions'' = None"
  shows "generateRestartText msgs names = Some (JStr (pre @ join names '', '' @ post))"
proof -
  have "replaceWhile ''%solutions'' (join names '', '') (pre @ ''%solutions'' @ post)
      = Some (pre @ join names '', '' @ post)"
    using assms(3,4) by (rule replaceWhile_once)
  with assms(1,2) show ?thesis
    by (simp add: generateRestartText_def stringTemplate_def)
qed

text \<open>A template with the placeholder and joined names with the placeholder:
  \<open>generateRestartText\<close> does not return.\<close>

lemma generateRestartText_never_returns:
  assumes "index0 names \<noteq> osName msgs"
    and "restartText msgs = JStr template"
    and "indexOf template ''%solutions'' \<noteq> None"
    and "indexOf (join names '', '') ''%solutions'' \<noteq> None"
  shows "generateRestartText msgs names = None"
proof -
  from assms(3) have "template \<noteq> []" by auto
  moreover have "replaceWhile ''%solutions'' (join names '', '') template = None"
    using assms(4,3) by (rule replaceWhile_never_returns)
  ultimately show ?thesis
    using assms(1,2) by (simp add: generateRestartText_def stringTemplate_def)
qed

lemma allowBlur_iff:
  "allowBlur fw linked = (case fw of None \<Rightarrow> True | Some w \<Rightarrow> tags w \<inter> set linked = {})"
  by (auto simp: allowBlur_def tags_def list_ex_iff split: option.splits)

lemma initBlurrable_gradeNames:
  "initBlurrable that (Some w) = Inr w' \<Longrightarrow> gradeNames w' = Some (optGradeNames that)"
  by (auto simp: initBlurrable_def)

section \<open>The claims\<close>

text \<open>
  Claim C1. Whenever some pending change has liveness \<open>OSRestart\<close>, \<open>getSolutionsNames\<close>
  returns the one-element list \<open>[messages.osName]\<close>, whatever the message catalog, the
  other pending changes, their order and their names are.
\<close>

theorem getSolutionsNames_OSRestart:
  assumes "\<exists>c\<in>set pendingChanges. liveness c = ''OSRestart''"
  shows "getSolutionsNames msgs pendingChanges = Inr [osName msgs]"
  using assms by (auto simp: getSolutionsNames_def isOSRestartNeeded_None)

theorem getSolutionsNames_OSRestart_witness:
  "(\<exists>c\<in>set [magnifierA, language, zoomTool, magnifierB]. liveness c = ''OSRestart'')
   \<and> getSolutionsNames exampleMessages [magnifierA, language, zoomTool, magnifierB]
       = Inr [JStr ''Windows'']"
proof -
  have h: "\<exists>c\<in>set [magnifierA, language, zoomTool, magnifierB]. liveness c = ''OSRestart''"
    by (simp add: language_def)
  show ?thesis
    using h getSolutionsNames_OSRestart [OF h, of exampleMessages]
    by (simp add: exampleMessages_def)
qed

text \<open>
  Claim C2. \<open>onFocusLost\<close> fires \<open>onBlur\<close> when no window is focused and when the tags
  of the newly focused window are disjoint from the linked grades; it fires nothing when
  one of that window's tags is a linked grade.
\<close>

theorem onFocusLost_decision:
  "onFocusLost None that linked = fireOnBlur that
   \<and> (tags w \<inter> set linked = {} \<longrightarrow> onFocusLost (Some w) that linked = fireOnBlur that)
   \<and> (tags w \<inter> set linked \<noteq> {} \<longrightarrow> onFocusLost (Some w) that linked = that)"
  by (simp add: onFocusLost_def allowBlur_iff)

theorem onFocusLost_decision_witness:
  "tags otherWindow \<inter> set [''qss''] = {}
   \<and> onFocusLost (Some otherWindow) exampleBlurrable [''qss'']
       = exampleBlurrable\<lparr>onBlurFired := 1\<rparr>
   \<and> tags qssWindow \<inter> set [''qss''] \<noteq> {}
   \<and> onFocusLost (Some qssWindow) exampleBlurrable [''qss''] = exampleBlurrable
   \<and> onFocusLost None exampleBlurrable [''qss''] = exampleBlurrable\<lparr>onBlurFired := 1\<rparr>"
proof -
  have d: "tags otherWindow \<inter> set [''qss''] = {}"
    by (simp add: tags_def otherWindow_def)
  have o: "tags qssWindow \<inter> set [''qss''] \<noteq> {}"
    by (simp add: tags_def qssWindow_def)
  show ?thesis
    using d o onFocusLost_decision [of exampleBlurrable "[''qss'']" otherWindow]
      onFocusLost_decision [of exampleBlurrable "[''qss'']" qssWindow]
    by (simp add: fireOnBlur_def exampleBlurrable_def)
qed

text \<open>
  Claim C4. \<open>getPendingChanges\<close> returns the pending changes whose path is the path of
  some node of the settings tree, at any depth, and returns them in the order of the
  input.
\<close>

theorem getPendingChanges_scope:
  "getPendingChanges pendingChanges settings
     = filter (\<lambda>pc. path pc \<in> set (groupPaths settings)) pendingChanges
   \<and> subseq (getPendingChanges pendingChanges settings) pendingChanges"
  by (simp add: getPendingChanges_paths)

theorem getPendingChanges_scope_witness:
  "groupPaths exampleSettings = [''a'', ''b'', ''x'', ''c'', ''y'', ''e'']
   \<and> getPendingChanges [zoomTool, language, magnifierA, untitled] exampleSettings
       = [zoomTool, magnifierA, untitled]
   \<and> subseq [zoomTool, magnifierA, untitled] [zoomTool, language, magnifierA, untitled]"
proof -
  have p: "groupPaths exampleSettings = [''a'', ''b'', ''x'', ''c'', ''y'', ''e'']"
    by (simp add: exampleSettings_def)
  have "path zoomTool = ''c''" "path language = ''d''" "path magnifierA = ''a''" "path untitled = ''e''"
    by (simp_all add: zoomTool_def language_def magnifierA_def untitled_def)
  then show ?thesis
    using getPendingChanges_scope [of "[zoomTool, language, magnifierA, untitled]" exampleSettings]
    by (simp add: p)
qed

text \<open>
  Claim C9. Scoping to a sub-group of a settings list never includes a pending change
  that scoping to the whole list excludes.
\<close>

theorem getPendingChanges_monotonic:
  assumes "isSubGroup S' S"
    and "pc \<in> set (getPendingChanges pendingChanges S')"
  shows "pc \<in> set (getPendingChanges pendingChanges S)"
  using assms subGroup_paths(1) [of S' S] by (auto simp: getPendingChanges_paths)

theorem getPendingChanges_monotonic_witness:
  "isSubGroup [Setting ''x'' (Some [Setting ''c'' None])] exampleSettings
   \<and> zoomTool \<in> set (getPendingChanges [magnifierA, zoomTool] [Setting ''x'' (Some [Setting ''c'' None])])
   \<and> zoomTool \<in> set (getPendingChanges [magnifierA, zoomTool] exampleSettings)"
proof -
  have s: "isSubGroup [Setting ''x'' (Some [Setting ''c'' None])] exampleSettings"
    by (simp add: exampleSettings_def)
  have m: "zoomTool \<in> set (getPendingChanges [magnifierA, zoomTool] [Setting ''x'' (Some [Setting ''c'' None])])"
    by (simp add: getPendingChanges_def zoomTool_def magnifierA_def)
  show ?thesis
    using s m getPendingChanges_monotonic [OF s m] by simp
qed

text \<open>
  Claim C10. A newly focused window that carries no grade names lets \<open>onFocusLost\<close> fire
  \<open>onBlur\<close> whatever the linked grades are, and so does an empty list of linked grades
  whatever window is focused.
\<close>

theorem onFocusLost_untagged:
  "(gradeNames w = None \<longrightarrow> onFocusLost (Some w) that linked = fireOnBlur that)
   \<and> onFocusLost focusedWindow that [] = fireOnBlur that"
  by (simp add: onFocusLost_def allowBlur_iff tags_def split: option.split)

theorem onFocusLost_untagged_witness:
  "gradeNames plainWindow = None
   \<and> onFocusLost (Some plainWindow) exampleBlurrable [''qss'']
       = exampleBlurrable\<lparr>onBlurFired := 1\<rparr>
   \<and> onFocusLost (Some qssWindow) exampleBlurrable [] = exampleBlurrable\<lparr>onBlurFired := 1\<rparr>"
proof -
  have n: "gradeNames plainWindow = None"
    by (simp add: plainWindow_def)
  show ?thesis
    using n onFocusLost_untagged [of plainWindow exampleBlurrable "[''qss'']" "Some qssWindow"]
    by (simp add: fireOnBlur_def exampleBlurrable_def)
qed

text \<open>
  Claim C3, as the code has it. When no pending change has liveness \<open>OSRestart\<close> and
  every pending change without a \<open>solutionName\<close> has a schema, \<open>getSolutionsNames\<close>
  returns the display names that are values (neither \<open>undefined\<close> nor \<open>null\<close>; the
  empty string is a value), deduplicated in first-seen order, so without duplicates; a
  further pending change appends its display name exactly when that name is a value and
  not yet in the list.
\<close>

theorem getSolutionsNames_firstSeen:
  assumes "\<forall>c\<in>set pendingChanges. liveness c \<noteq> ''OSRestart''"
    and "\<forall>c\<in>set pendingChanges. isValue (solutionName c) \<or> schema c \<noteq> None"
  shows "getSolutionsNames msgs pendingChanges
           = Inr (firstSeen (filter isValue (map displayName pendingChanges)))
         \<and> distinct (firstSeen (filter isValue (map displayName pendingChanges)))
         \<and> (liveness c \<noteq> ''OSRestart'' \<and> (isValue (solutionName c) \<or> schema c \<noteq> None) \<longrightarrow>
              getSolutionsNames msgs (pendingChanges @ [c])
                = Inr (let names = firstSeen (filter isValue (map displayName pendingChanges))
                       in if isValue (displayName c) \<and> displayName c \<notin> set names
                          then names @ [displayName c] else names))"
proof -
  let ?names = "firstSeen (filter isValue (map displayName pendingChanges))"
  have first: "getSolutionsNames msgs pendingChanges = Inr ?names"
    using assms by (rule getSolutionsNames_accumulated)
  have last: "getSolutionsNames msgs (pendingChanges @ [c])
      = Inr (let names = ?names
             in if isValue (displayName c) \<and> displayName c \<notin> set names
                then names @ [displayName c] else names)"
    if c: "liveness c \<noteq> ''OSRestart''" "isValue (solutionName c) \<or> schema c \<noteq> None"
  proof -
    have "\<forall>c\<in>set (pendingChanges @ [c]). liveness c \<noteq> ''OSRestart''"
      using assms(1) c(1) by simp
    moreover have "\<forall>c\<in>set (pendingChanges @ [c]). isValue (solutionName c) \<or> schema c \<noteq> None"
      using assms(2) c(2) by simp
    ultimately have "getSolutionsNames msgs (pendingChanges @ [c])
        = Inr (firstSeen (filter isValue (map displayName (pendingChanges @ [c]))))"
      by (rule getSolutionsNames_accumulated)
    then show ?thesis
      by (simp add: firstSeen_snoc set_firstSeen Let_def)
  qed
  have "distinct ?names"
    by (rule distinct_firstSeen)
  with first last show ?thesis
    by blast
qed

theorem getSolutionsNames_firstSeen_witness:
  "getSolutionsNames exampleMessages [magnifierA, magnifierB, untitled] = Inr [JStr ''Magnifier'']
   \<and> getSolutionsNames exampleMessages [magnifierA, magnifierB, untitled, zoomTool]
       = Inr [JStr ''Magnifier'', JStr ''Zoom Tool'']"
proof -
  have l: "\<forall>c\<in>set [magnifierA, magnifierB, untitled]. liveness c \<noteq> ''OSRestart''"
    by (simp add: magnifierA_def magnifierB_def untitled_def)
  have s: "\<forall>c\<in>set [magnifierA, magnifierB, untitled]. isValue (solutionName c) \<or> schema c \<noteq> None"
    by (simp add: magnifierA_def magnifierB_def untitled_def)
  have z: "liveness zoomTool \<noteq> ''OSRestart'' \<and> (isValue (solutionName zoomTool) \<or> schema zoomTool \<noteq> None)"
    by (simp add: zoomTool_def)
  have names: "firstSeen (filter isValue (map displayName [magnifierA, magnifierB, untitled]))
      = [JStr ''Magnifier'']"
    by (simp add: firstSeen_def displayName_def isValue_def magnifierA_def magnifierB_def untitled_def)
  have d: "displayName zoomTool = JStr ''Zoom Tool''"
    by (simp add: displayName_def isValue_def zoomTool_def)
  have v: "isValue (JStr ''Zoom Tool'')"
    by (simp add: isValue_def)
  note t = getSolutionsNames_firstSeen [OF l s, of exampleMessages zoomTool, unfolded names d]
  from t z v have "getSolutionsNames exampleMessages [magnifierA, magnifierB, untitled]
      = Inr [JStr ''Magnifier'']"
    and "getSolutionsNames exampleMessages ([magnifierA, magnifierB, untitled] @ [zoomTool])
      = Inr [JStr ''Magnifier'', JStr ''Zoom Tool'']"
    by auto
  then show ?thesis
    by simp
qed

text \<open>
  Claim C3 as stated fails on the empty string, which is a value for
  \<open>fluid.isValue\<close>: a pending change whose
  \<open>solutionName\<close> is the empty string has the empty name appended, and its title is not
  looked at.
\<close>

theorem getSolutionsNames_empty_name_counterexample:
  "isOSRestartNeeded
     [\<lparr>path = ''a'', liveness = ''ApplicationRestart'', solutionName = JStr '''',
       schema = Some \<lparr>title = JStr ''Zoom Tool''\<rparr>\<rparr>] = None
   \<and> getSolutionsNames exampleMessages
     [\<lparr>path = ''a'', liveness = ''ApplicationRestart'', solutionName = JStr '''',
       schema = Some \<lparr>title = JStr ''Zoom Tool''\<rparr>\<rparr>] = Inr [JStr '''']"
  by (simp add: getSolutionsNames_def isOSRestartNeeded_def addSolutionName_def
      pickSolutionName_def isValue_def)

text \<open>
  Claim C5. \<open>getSolutionsNames\<close> is not to throw, and a pending change without a name
  is to contribute nothing, also when it has no schema. The code skips a pending change
  whose schema has no title, but for a pending change that has neither a
  \<open>solutionName\<close> nor a schema it reads \<open>schema.title\<close> before its test of the name,
  and throws a TypeError.
\<close>

theorem getSolutionsNames_missing_schema_throws:
  "getSolutionsNames exampleMessages
     [\<lparr>path = ''a'', liveness = ''ApplicationRestart'', solutionName = JUndefined,
       schema = None\<rparr>] = Inl TypeError
   \<and> getSolutionsNames exampleMessages
     [\<lparr>path = ''a'', liveness = ''ApplicationRestart'', solutionName = JUndefined,
       schema = Some \<lparr>title = JUndefined\<rparr>\<rparr>] = Inr []"
  by (simp add: getSolutionsNames_def isOSRestartNeeded_def addSolutionName_def
      pickSolutionName_def isValue_def)

text \<open>
  Claim C6, as the code has it. The flag handed to \<open>container.toggle\<close> equals
  \<open>solutionNames.length > 0\<close>, so the warning is hidden when there are no solution
  names. The two texts are computed all the same: with no solution names (and an
  \<open>osName\<close> that is not \<open>undefined\<close>) the button label is \<open>messages.applyNow\<close>, and the
  restart text is what \<open>fluid.stringTemplate\<close> returns for the \<open>restartText\<close> template
  and the empty string, a text with no placeholder left; it is absent only when the
  template is.
\<close>

theorem toggle_visible:
  "toggle solutionNames = (length solutionNames > 0)
   \<and> \<not> toggle []
   \<and> (osName msgs \<noteq> JUndefined \<longrightarrow>
        generateRestartBtnLabel msgs [] = applyNow msgs
        \<and> (restartText msgs = JStr template \<and> template \<noteq> [] \<longrightarrow>
             (\<exists>res. stringTemplate template [] = Some res
                \<and> indexOf res ''%solutions'' = None
                \<and> generateRestartText msgs [] = Some (JStr res)))
        \<and> (\<not> truthy (restartText msgs) \<longrightarrow>
             generateRestartText msgs [] = Some JUndefined))"
proof -
  have "\<exists>res. stringTemplate template [] = Some res
      \<and> indexOf res ''%solutions'' = None
      \<and> generateRestartText msgs [] = Some (JStr res)"
    if "osName msgs \<noteq> JUndefined" "restartText msgs = JStr template" "template \<noteq> []"
  proof -
    from stringTemplate_empty_returns obtain res
      where res: "stringTemplate template [] = Some res" "indexOf res ''%solutions'' = None"
      by blast
    from that res(1) have "generateRestartText msgs [] = Some (JStr res)"
      by (simp add: generateRestartText_def)
    with res show ?thesis by blast
  qed
  moreover have "generateRestartText msgs [] = Some JUndefined"
    if "osName msgs \<noteq> JUndefined" "\<not> truthy (restartText msgs)"
    using that by (simp add: generateRestartText_def)
  moreover have "osName msgs \<noteq> JUndefined \<Longrightarrow> generateRestartBtnLabel msgs [] = applyNow msgs"
    by (simp add: generateRestartBtnLabel_def)
  ultimately show ?thesis
    by (simp add: toggle_def)
qed

theorem toggle_visible_witness:
  "osName exampleMessages \<noteq> JUndefined
   \<and> restartText exampleMessages = JStr ''To apply, restart %solutions''
   \<and> generateRestartBtnLabel exampleMessages [] = JStr ''Apply now''
   \<and> generateRestartText exampleMessages [] = Some (JStr ''To apply, restart '')
   \<and> \<not> truthy (restartText (exampleMessages\<lparr>restartText := JNull\<rparr>))
   \<and> generateRestartText (exampleMessages\<lparr>restartText := JNull\<rparr>) [] = Some JUndefined
   \<and> toggle [JStr ''Magnifier''] \<and> \<not> toggle []"
proof -
  have o: "osName exampleMessages \<noteq> JUndefined"
    "osName (exampleMessages\<lparr>restartText := JNull\<rparr>) \<noteq> JUndefined"
    by (simp_all add: exampleMessages_def)
  have r: "restartText exampleMessages = JStr ''To apply, restart %solutions''"
    "''To apply, restart %solutions'' \<noteq> []"
    by (simp_all add: exampleMessages_def)
  have n: "\<not> truthy (restartText (exampleMessages\<lparr>restartText := JNull\<rparr>))"
    by simp
  have a: "applyNow exampleMessages = JStr ''Apply now''"
    by (simp add: exampleMessages_def)
  have t: "stringTemplate ''To apply, restart %solutions'' [] = Some ''To apply, restart ''"
    by (simp add: stringTemplate_def replaceWhile.simps)
  note v1 = toggle_visible [where solutionNames = "[JStr ''Magnifier'']" and msgs = exampleMessages
        and template = "''To apply, restart %solutions''", unfolded t]
  note v2 = toggle_visible [where solutionNames = "[]"
        and msgs = "exampleMessages\<lparr>restartText := JNull\<rparr>"]
  from v1 o(1) r have "toggle [JStr ''Magnifier'']" "\<not> toggle []"
    "generateRestartBtnLabel exampleMessages [] = JStr ''Apply now''"
    "generateRestartText exampleMessages [] = Some (JStr ''To apply, restart '')"
    unfolding a by auto
  moreover from v2 o(2) n
  have "generateRestartText (exampleMessages\<lparr>restartText := JNull\<rparr>) [] = Some JUndefined"
    by blast
  ultimately show ?thesis
    using o(1) r(1) n by blast
qed

text \<open>
  Claim C6 as stated fails on the texts: with no pending change there are no solution
  names, yet both texts are strings.
\<close>

theorem empty_solutionNames_texts_counterexample:
  "getSolutionsNames exampleMessages [] = Inr []
   \<and> generateRestartText exampleMessages [] = Some (JStr ''To apply, restart '')
   \<and> generateRestartBtnLabel exampleMessages [] = JStr ''Apply now''"
  by (simp add: getSolutionsNames_def isOSRestartNeeded_def generateRestartText_def
      generateRestartBtnLabel_def stringTemplate_def replaceWhile.simps exampleMessages_def)

text \<open>
  Claim C7. The button label is to be \<open>messages.restartNow\<close> when some pending change
  has liveness \<open>OSRestart\<close> and \<open>messages.applyNow\<close> otherwise, as the comment of
  \<open>generateRestartBtnLabel\<close> says (the label depends on whether the OS needs to be
  restarted). The code takes the need of an OS restart from the first solution name
  being \<open>messages.osName\<close>: for a pending change of an application with that very name,
  and no pending change with liveness \<open>OSRestart\<close>, it returns \<open>restartNow\<close>, which is
  not \<open>applyNow\<close>.
\<close>

theorem generateRestartBtnLabel_osName_collision:
  "isOSRestartNeeded
     [\<lparr>path = ''a'', liveness = ''ApplicationRestart'', solutionName = JStr ''Windows'',
       schema = Some \<lparr>title = JStr ''Theme''\<rparr>\<rparr>] = None
   \<and> getSolutionsNames exampleMessages
     [\<lparr>path = ''a'', liveness = ''ApplicationRestart'', solutionName = JStr ''Windows'',
       schema = Some \<lparr>title = JStr ''Theme''\<rparr>\<rparr>] = Inr [JStr ''Windows'']
   \<and> generateRestartBtnLabel exampleMessages [JStr ''Windows''] = JStr ''Restart now''
   \<and> applyNow exampleMessages = JStr ''Apply now''"
  by (simp add: getSolutionsNames_def isOSRestartNeeded_def addSolutionName_def
      pickSolutionName_def isValue_def generateRestartBtnLabel_def exampleMessages_def)

text \<open>
  Claim C8. \<open>generateRestartText\<close> is to return \<open>messages.osRestartText\<close> as it is when
  the first solution name equals \<open>messages.osName\<close>, and otherwise the \<open>restartText\<close>
  template with the solution names, joined with a comma and a space, in the place of the
  placeholder (nothing when there is no template). \<open>fluid.stringTemplate\<close> searches the
  placeholder again from the start of the text after each replacement: for a solution
  name that contains the placeholder the search finds it in what was just put in, the
  loop does not end, and \<open>generateRestartText\<close> does not return.
\<close>

theorem generateRestartText_placeholder_name_hangs:
  "getSolutionsNames exampleMessages
     [\<lparr>path = ''a'', liveness = ''ApplicationRestart'', solutionName = JStr ''%solutions'',
       schema = Some \<lparr>title = JStr ''Theme''\<rparr>\<rparr>] = Inr [JStr ''%solutions'']
   \<and> restartText exampleMessages = JStr ''To apply, restart %solutions''
   \<and> generateRestartText exampleMessages [JStr ''%solutions''] = None"
proof -
  have "generateRestartText exampleMessages [JStr ''%solutions''] = None"
  proof (rule generateRestartText_never_returns)
    show "index0 [JStr ''%solutions''] \<noteq> osName exampleMessages"
      by (simp add: exampleMessages_def)
    show "restartText exampleMessages = JStr ''To apply, restart %solutions''"
      by (simp add: exampleMessages_def)
    show "indexOf ''To apply, restart %solutions'' ''%solutions'' \<noteq> None"
      by simp
    show "indexOf (join [JStr ''%solutions''] '', '') ''%solutions'' \<noteq> None"
      by simp
  qed
  then show ?thesis
    by (simp add: getSolutionsNames_def isOSRestartNeeded_def addSolutionName_def
        pickSolutionName_def isValue_def exampleMessages_def)
qed

end
